theory Spec2Isabelle
  imports Complex_Main
begin

section \<open>Time\<close>

text \<open>
  The tracker works on naive local \<^verbatim>\<open>datetime\<close> values whose microseconds are zero or are
  dropped before use (\<^verbatim>\<open>replace(microsecond=0)\<close>, \<^verbatim>\<open>timetuple()\<close>, \<^verbatim>\<open>strftime\<close> with
  \<^verbatim>\<open>%S\<close>). A datetime is modelled as its number of whole seconds, counted as Python's
  proleptic Gregorian ordinal (day 1 is 0001-01-01) times 86400 plus the second of the day.
  Subtracting two datetimes and \<^verbatim>\<open>total_seconds()\<close> is then integer subtraction.
\<close>

type_synonym datetime = int

definition is_leap :: "int \<Rightarrow> bool" where
  "is_leap year = (year mod 4 = 0 \<and> (year mod 100 \<noteq> 0 \<or> year mod 400 = 0))"

definition days_before_year :: "int \<Rightarrow> int" where
  "days_before_year year =
     (let y = year - 1 in y * 365 + y div 4 - y div 100 + y div 400)"

definition days_before_month :: "int \<Rightarrow> int \<Rightarrow> int" where
  "days_before_month year month =
     [0, 0, 31, 59, 90, 120, 151, 181, 212, 243, 273, 304, 334] ! nat month
       + (if month > 2 \<and> is_leap year then 1 else 0)"

definition ymd2ord :: "int \<Rightarrow> int \<Rightarrow> int \<Rightarrow> int" where
  "ymd2ord year month day = days_before_year year + days_before_month year month + day"

text \<open>\<^verbatim>\<open>datetime(year, month, day, hh, mm, ss)\<close> for a valid calendar date (month 1 to 12).\<close>

definition mk_datetime :: "int \<Rightarrow> int \<Rightarrow> int \<Rightarrow> int \<Rightarrow> int \<Rightarrow> int \<Rightarrow> datetime" where
  "mk_datetime year month day hh mm ss =
     ymd2ord year month day * 86400 + hh * 3600 + mm * 60 + ss"

text \<open>\<^verbatim>\<open>dt.date()\<close>, as the ordinal of the day; \<^verbatim>\<open>strftime("%Y-%m-%d")\<close> of it is the key
  of \<^verbatim>\<open>daily_totals\<close> and is one-to-one on dates, so the ordinal stands for the key.\<close>

definition date_of :: "datetime \<Rightarrow> int" where
  "date_of dt = dt div 86400"

text \<open>\<^verbatim>\<open>datetime.combine(d, dtime.min)\<close>: the first second of day \<open>d\<close>.\<close>

definition combine_min :: "int \<Rightarrow> datetime" where
  "combine_min d = d * 86400"

text \<open>\<^verbatim>\<open>time.mktime(dt.timetuple())\<close>: epoch seconds of a local datetime. The local zone
  is taken with a fixed offset of zero (no daylight saving), so it is the distance to
  1970-01-01 00:00:00, whose ordinal is 719163.\<close>

definition mktime :: "datetime \<Rightarrow> int" where
  "mktime dt = dt - 719163 * 86400"

section \<open>Storage\<close>

text \<open>The three tables of \<^verbatim>\<open>_init_db\<close>, each as the list of its rows in insertion order.
  \<^verbatim>\<open>duration_sec\<close> and \<^verbatim>\<open>seconds\<close> are REAL columns that only ever receive whole
  numbers of seconds; they are modelled as integers.\<close>

record act_row =
  act_id :: int
  act_name :: string

record sess_row =
  sess_id :: int
  sess_activity_id :: int
  start_ts :: datetime
  end_ts :: datetime
  duration_sec :: int

type_synonym daily_row = "(int \<times> int) \<times> int"

text \<open>An \<^verbatim>\<open>INTEGER PRIMARY KEY\<close> column left out of an INSERT gets 1 in an empty table and
  the largest id in use plus one otherwise.\<close>

definition next_rowid :: "int list \<Rightarrow> int" where
  "next_rowid ids = (case ids of [] \<Rightarrow> 1 | i # rest \<Rightarrow> fold max rest i + 1)"

text \<open>\<^verbatim>\<open>COLLATE NOCASE\<close> compares after folding the 26 ASCII upper-case letters to lower case.\<close>

definition nocase_lower :: "char \<Rightarrow> char" where
  "nocase_lower c =
     (let n = of_char c :: nat in if 65 \<le> n \<and> n \<le> 90 then char_of (n + 32) else c)"

definition nocase_eq :: "string \<Rightarrow> string \<Rightarrow> bool" where
  "nocase_eq a b = (map nocase_lower a = map nocase_lower b)"

text \<open>\<^verbatim>\<open>INSERT OR IGNORE INTO activities(name) VALUES(?)\<close> under the UNIQUE NOCASE
  constraint on \<^verbatim>\<open>name\<close>.\<close>

definition insert_or_ignore_activity :: "act_row list \<Rightarrow> string \<Rightarrow> act_row list" where
  "insert_or_ignore_activity acts name =
     (if list_ex (\<lambda>r. nocase_eq (act_name r) name) acts then acts
      else acts @ [\<lparr>act_id = next_rowid (map act_id acts), act_name = name\<rparr>])"

text \<open>\<^verbatim>\<open>SELECT id FROM activities WHERE name = ?\<close> with \<^verbatim>\<open>fetchone()\<close>: the first matching
  row, or \<open>None\<close>.\<close>

definition select_activity_id :: "act_row list \<Rightarrow> string \<Rightarrow> int option" where
  "select_activity_id acts name =
     map_option act_id (find (\<lambda>r. nocase_eq (act_name r) name) acts)"

text \<open>\<^verbatim>\<open>_get_or_create_activity\<close>: the table after the insert and the id read back. The
  source returns \<^verbatim>\<open>row[0]\<close>, which raises on a missing row; that is the result \<open>None\<close>.\<close>

definition get_or_create_activity :: "act_row list \<Rightarrow> string \<Rightarrow> act_row list \<times> int option" where
  "get_or_create_activity acts name =
     (let acts' = insert_or_ignore_activity acts name
      in (acts', select_activity_id acts' name))"

text \<open>\<^verbatim>\<open>_add_to_daily_total\<close>: the upsert on the key \<open>(date, activity_id)\<close>.\<close>

fun add_to_daily_total :: "daily_row list \<Rightarrow> int \<Rightarrow> int \<Rightarrow> int \<Rightarrow> daily_row list" where
  "add_to_daily_total [] d aid secs = [((d, aid), secs)]"
| "add_to_daily_total ((k, s) # rows) d aid secs =
     (if k = (d, aid) then (k, s + secs) # rows
      else (k, s) # add_to_daily_total rows d aid secs)"

text \<open>The seconds stored for a date and an activity, zero when there is no row.\<close>

definition daily_seconds :: "daily_row list \<Rightarrow> int \<Rightarrow> int \<Rightarrow> int" where
  "daily_seconds rows d aid = (case map_of rows (d, aid) of None \<Rightarrow> 0 | Some s \<Rightarrow> s)"

section \<open>Tracker state\<close>

text \<open>The fields of \<^verbatim>\<open>StopwatchApp\<close> that the accounting reads and writes, together with the
  database contents.\<close>

record tracker =
  running :: bool
  start_time :: "int option"
  start_timestamp :: "datetime option"
  current_activity_id :: "int option"
  current_activity_name :: "string option"
  current_session_id :: "int option"
  last_autosave_dt :: datetime
  activities :: "act_row list"
  sessions :: "sess_row list"
  daily_totals :: "daily_row list"

definition DEFAULT_ACTIVITIES :: "string list" where
  "DEFAULT_ACTIVITIES = [''Work'', ''Study'', ''Break'', ''Waste'', ''Projects'']"

definition seed_default_activities :: "act_row list \<Rightarrow> act_row list" where
  "seed_default_activities acts =
     insert_or_ignore_activity (foldl insert_or_ignore_activity acts DEFAULT_ACTIVITIES) ''Custom''"

text \<open>The state set up by \<^verbatim>\<open>__init__\<close> before its first \<^verbatim>\<open>_start_activity\<close>, over the
  tables found on disk, with the default activities seeded; \<open>t0\<close> is the clock at that
  moment.\<close>

definition initial_state :: "act_row list \<Rightarrow> sess_row list \<Rightarrow> daily_row list \<Rightarrow> datetime \<Rightarrow> tracker" where
  "initial_state acts sess dts t0 =
     \<lparr>running = False, start_time = None, start_timestamp = None,
      current_activity_id = None, current_activity_name = None,
      current_session_id = None, last_autosave_dt = t0,
      activities = seed_default_activities acts, sessions = sess, daily_totals = dts\<rparr>"

section \<open>Session rows\<close>

text \<open>\<^verbatim>\<open>_create_new_session_row\<close>. The argument \<open>aid\<close> is the value of
  \<^verbatim>\<open>self.current_activity_id\<close>, which both callers have set or tested to be not \<^verbatim>\<open>None\<close>
  before the call.\<close>

definition create_new_session_row :: "tracker \<Rightarrow> int \<Rightarrow> datetime \<Rightarrow> tracker" where
  "create_new_session_row st aid start_dt =
     (let new_id = next_rowid (map sess_id (sessions st))
      in st\<lparr>sessions := sessions st @
               [\<lparr>sess_id = new_id, sess_activity_id = aid, start_ts = start_dt,
                 end_ts = start_dt, duration_sec = 0\<rparr>],
             current_session_id := Some new_id\<rparr>)"

definition update_current_session_row :: "tracker \<Rightarrow> datetime \<Rightarrow> tracker" where
  "update_current_session_row st end_dt =
     (case (current_session_id st, start_time st) of
        (Some sid, Some t0) \<Rightarrow>
          if \<not> running st then st
          else st\<lparr>sessions :=
                    map (\<lambda>r. if sess_id r = sid
                              then r\<lparr>end_ts := end_dt,
                                     duration_sec := max 0 (mktime end_dt - t0)\<rparr>
                              else r) (sessions st)\<rparr>
      | _ \<Rightarrow> st)"

definition finalize_current_session_row :: "tracker \<Rightarrow> datetime \<Rightarrow> tracker" where
  "finalize_current_session_row st end_dt =
     (update_current_session_row st end_dt)\<lparr>current_session_id := None\<rparr>"

section \<open>Activity control\<close>

text \<open>Every handler is modelled with one clock reading \<open>now\<close>; the source reads the clock
  again in the calls nested in the same handler.\<close>

definition save_previous_activity_if_running :: "tracker \<Rightarrow> datetime \<Rightarrow> tracker" where
  "save_previous_activity_if_running st now =
     (if running st \<and> current_activity_id st \<noteq> None \<and> start_time st \<noteq> None
      then (finalize_current_session_row st now)
             \<lparr>running := False, start_time := None, start_timestamp := None\<rparr>
      else st)"

text \<open>\<^verbatim>\<open>_start_activity\<close>, without its overlay calls. \<open>None\<close> is the exception of
  \<^verbatim>\<open>_get_or_create_activity\<close>.\<close>

definition start_activity :: "tracker \<Rightarrow> string \<Rightarrow> datetime \<Rightarrow> tracker option" where
  "start_activity st name now =
     (let st1 = save_previous_activity_if_running st now;
          (acts', res) = get_or_create_activity (activities st1) name
      in case res of
           None \<Rightarrow> None
         | Some aid \<Rightarrow>
             Some (create_new_session_row
                     (st1\<lparr>current_activity_name := Some name,
                          activities := acts',
                          current_activity_id := Some aid,
                          running := True,
                          start_time := Some (mktime now),
                          start_timestamp := Some now,
                          last_autosave_dt := now\<rparr>)
                     aid now))"

section \<open>Midnight rollover and autosave\<close>

definition rollover_midnight_if_needed ::
    "tracker \<Rightarrow> datetime \<Rightarrow> datetime \<Rightarrow> tracker \<times> datetime" where
  "rollover_midnight_if_needed st reference_dt now_dt =
     (case current_activity_id st of
        None \<Rightarrow> (st, reference_dt)
      | Some aid \<Rightarrow>
          if \<not> running st then (st, reference_dt)
          else if date_of reference_dt = date_of now_dt then (st, reference_dt)
          else
            let midnight = combine_min (date_of reference_dt + 1);
                secs_to_midnight = midnight - reference_dt;
                st1 = (if secs_to_midnight > 0
                       then finalize_current_session_row
                              (st\<lparr>daily_totals :=
                                    add_to_daily_total (daily_totals st)
                                      (date_of reference_dt) aid secs_to_midnight\<rparr>)
                              midnight
                       else st);
                st2 = st1\<lparr>running := True,
                          start_time := Some (mktime midnight),
                          start_timestamp := Some midnight\<rparr>
            in (create_new_session_row st2 aid midnight, midnight))"

text \<open>\<^verbatim>\<open>_do_autosave\<close>, the periodic tick, without its overlay call.\<close>

definition do_autosave :: "tracker \<Rightarrow> datetime \<Rightarrow> tracker" where
  "do_autosave st now_dt =
     (case current_activity_id st of
        None \<Rightarrow> st\<lparr>last_autosave_dt := now_dt\<rparr>
      | Some aid \<Rightarrow>
          if \<not> running st then st\<lparr>last_autosave_dt := now_dt\<rparr>
          else
            let (st1, ref) = rollover_midnight_if_needed st (last_autosave_dt st) now_dt;
                delta_sec = now_dt - ref;
                st2 = (if delta_sec > 0
                       then st1\<lparr>daily_totals :=
                                  add_to_daily_total (daily_totals st1)
                                    (date_of now_dt) aid delta_sec,
                                last_autosave_dt := now_dt\<rparr>
                       else st1)
            in update_current_session_row st2 now_dt)"

section \<open>Switch, start, stop\<close>

text \<open>\<^verbatim>\<open>_switch_activity\<close>: \<open>selected\<close> is the radio button's value and \<open>custom\<close> the answer
  of the name dialog (\<open>None\<close> when it is cancelled), which is only asked for
  \<^verbatim>\<open>"Custom"\<close>.\<close>

definition switch_activity ::
    "tracker \<Rightarrow> string \<Rightarrow> string option \<Rightarrow> datetime \<Rightarrow> tracker option" where
  "switch_activity st selected custom now =
     (if selected = ''Custom'' then
        (case custom of
           None \<Rightarrow> Some st
         | Some c \<Rightarrow>
             if c = [] then Some st
             else
               (case get_or_create_activity (activities st) c of
                  (acts', None) \<Rightarrow> None
                | (acts', Some _) \<Rightarrow> start_activity (st\<lparr>activities := acts'\<rparr>) c now))
      else start_activity st selected now)"

text \<open>\<^verbatim>\<open>start\<close>, the Start button: \<open>name\<close> is the value of its local \<^verbatim>\<open>name\<close>.\<close>

definition start :: "tracker \<Rightarrow> string \<Rightarrow> datetime \<Rightarrow> tracker option" where
  "start st name now = (if \<not> running st then start_activity st name now else Some st)"

definition stop :: "tracker \<Rightarrow> datetime \<Rightarrow> tracker" where
  "stop st now = save_previous_activity_if_running (do_autosave st now) now"

section \<open>Operation sequences\<close>

text \<open>The operations with their clock reading: the Start button, a switch through the
  activity picker (a hotkey is a switch to one of the five default names), the Stop button
  and the autosave tick.\<close>

datatype op =
    Start string datetime
  | Switch string "string option" datetime
  | Stop datetime
  | Tick datetime

fun step :: "tracker \<Rightarrow> op \<Rightarrow> tracker option" where
  "step st (Start name now) = start st name now"
| "step st (Switch selected custom now) = switch_activity st selected custom now"
| "step st (Stop now) = Some (stop st now)"
| "step st (Tick now) = Some (do_autosave st now)"

fun run :: "tracker \<Rightarrow> op list \<Rightarrow> tracker option" where
  "run st [] = Some st"
| "run st (x # xs) = (case step st x of None \<Rightarrow> None | Some st' \<Rightarrow> run st' xs)"

section \<open>Elapsed-time display\<close>

text \<open>\<^verbatim>\<open>_current_time_text\<close> reads \<^verbatim>\<open>time.time()\<close>, a fractional number of epoch seconds,
  here the real \<open>t\<close>; floating-point rounding is not modelled. \<open>current_elapsed\<close> is its
  local \<^verbatim>\<open>elapsed\<close>.\<close>

definition current_elapsed :: "tracker \<Rightarrow> real \<Rightarrow> real" where
  "current_elapsed st t =
     (case start_time st of
        Some t0 \<Rightarrow> if running st then t - real_of_int t0 else 0
      | None \<Rightarrow> 0)"

text \<open>Python's \<^verbatim>\<open>divmod\<close> on floats with a positive divisor, and \<^verbatim>\<open>int()\<close> of a float,
  which truncates toward zero.\<close>

definition py_divmod :: "real \<Rightarrow> real \<Rightarrow> real \<times> real" where
  "py_divmod x y = (of_int \<lfloor>x / y\<rfloor>, x - of_int \<lfloor>x / y\<rfloor> * y)"

definition py_int :: "real \<Rightarrow> int" where
  "py_int x = (if 0 \<le> x then \<lfloor>x\<rfloor> else \<lceil>x\<rceil>)"

text \<open>The four numbers that \<^verbatim>\<open>_current_time_text\<close> formats as \<^verbatim>\<open>HH:MM:SS.cc\<close>.\<close>

definition current_time_text :: "tracker \<Rightarrow> real \<Rightarrow> int \<times> int \<times> int \<times> int" where
  "current_time_text st t =
     (let elapsed = current_elapsed st t;
          (mins, secs) = py_divmod elapsed 60;
          (hrs, mins') = py_divmod mins 60;
          cs = py_int ((elapsed - of_int (py_int elapsed)) * 100)
      in (py_int hrs, py_int mins', py_int secs, cs))"

section \<open>Notions used by the properties\<close>

text \<open>The live session rows: those that \<^verbatim>\<open>_update_current_session_row\<close> would still
  write to, namely the rows whose id is \<^verbatim>\<open>current_session_id\<close>.\<close>

definition live_sessions :: "tracker \<Rightarrow> sess_row list" where
  "live_sessions st = filter (\<lambda>r. current_session_id st = Some (sess_id r)) (sessions st)"

text \<open>The consistency of the in-memory fields with the session table which every
  operation keeps.\<close>

definition tracker_inv :: "tracker \<Rightarrow> bool" where
  "tracker_inv st =
     (distinct (map sess_id (sessions st)) \<and>
      (if running st
       then current_activity_id st \<noteq> None \<and> start_time st \<noteq> None \<and>
            list_ex (\<lambda>r. current_session_id st = Some (sess_id r) \<and>
                          current_activity_id st = Some (sess_activity_id r)) (sessions st)
       else current_session_id st = None))"

text \<open>The seconds of the interval from \<open>a\<close> to \<open>b\<close> that fall on the calendar day \<open>d\<close>.\<close>

definition secs_on_date :: "datetime \<Rightarrow> datetime \<Rightarrow> int \<Rightarrow> int" where
  "secs_on_date a b d = max 0 (min b (combine_min (d + 1)) - max a (combine_min d))"

fun op_time :: "op \<Rightarrow> datetime" where
  "op_time (Start name now) = now"
| "op_time (Switch selected custom now) = now"
| "op_time (Stop now) = now"
| "op_time (Tick now) = now"

fun last_time :: "datetime \<Rightarrow> op list \<Rightarrow> datetime" where
  "last_time T [] = T"
| "last_time T (x # xs) = last_time (op_time x) xs"

text \<open>The running time of activity \<open>a\<close> not yet credited at instant \<open>T\<close>, on day \<open>d\<close>: what
  lies between the checkpoint and \<open>T\<close>.\<close>

definition pending :: "tracker \<Rightarrow> datetime \<Rightarrow> int \<Rightarrow> int \<Rightarrow> int" where
  "pending st T d a =
     (if running st \<and> current_activity_id st = Some a
      then secs_on_date (last_autosave_dt st) T d else 0)"

text \<open>The wall-clock seconds of day \<open>d\<close> during which the tracker was running activity \<open>a\<close>
  while the operations \<open>ops\<close> were applied, \<open>T\<close> being the instant of the state \<open>st\<close>.\<close>

fun running_secs :: "tracker \<Rightarrow> datetime \<Rightarrow> op list \<Rightarrow> int \<Rightarrow> int \<Rightarrow> int" where
  "running_secs st T [] d a = 0"
| "running_secs st T (x # xs) d a =
     (if running st \<and> current_activity_id st = Some a
      then secs_on_date T (op_time x) d else 0)
     + (case step st x of
          None \<Rightarrow> 0
        | Some st' \<Rightarrow> running_secs st' (op_time x) xs d a)"

text \<open>The same over all days and activities.\<close>

fun running_total :: "tracker \<Rightarrow> datetime \<Rightarrow> op list \<Rightarrow> int" where
  "running_total st T [] = 0"
| "running_total st T (x # xs) =
     (if running st then op_time x - T else 0)
     + (case step st x of
          None \<Rightarrow> 0
        | Some st' \<Rightarrow> running_total st' (op_time x) xs)"

definition total_credited :: "tracker \<Rightarrow> int" where
  "total_credited st = sum_list (map snd (daily_totals st))"

definition live_duration :: "tracker \<Rightarrow> int" where
  "live_duration st = sum_list (map duration_sec (live_sessions st))"

text \<open>The operation sequences on which the accounting is exact: the clock does not go
  back; a switch is made only while idle; a tick or stop while running comes on the
  checkpoint's day or the next one; and a tick while running that crosses midnight
  comes after that midnight, not on it.\<close>

fun op_ok :: "tracker \<Rightarrow> op \<Rightarrow> bool" where
  "op_ok st (Start name now) = True"
| "op_ok st (Switch selected custom now) = (\<not> running st)"
| "op_ok st (Stop now) =
     (\<not> running st \<or> date_of now \<le> date_of (last_autosave_dt st) + 1)"
| "op_ok st (Tick now) =
     (\<not> running st \<or>
      (date_of now \<le> date_of (last_autosave_dt st) + 1 \<and>
       (date_of now = date_of (last_autosave_dt st) \<or> combine_min (date_of now) < now)))"

fun admissible :: "tracker \<Rightarrow> datetime \<Rightarrow> op list \<Rightarrow> bool" where
  "admissible st T [] = True"
| "admissible st T (x # xs) =
     (T \<le> op_time x \<and> op_ok st x \<and>
      (case step st x of
         None \<Rightarrow> True
       | Some st' \<Rightarrow> admissible st' (op_time x) xs))"

section \<open>Activity registry\<close>


lemma find_append_new:
  "\<not> list_ex P xs \<Longrightarrow> P y \<Longrightarrow> find P (xs @ [y]) = Some y"
  by (induction xs) (auto simp: list_ex_iff)

lemma find_list_ex: "list_ex P xs \<Longrightarrow> \<exists>y. find P xs = Some y"
  by (induction xs) auto

lemma select_after_insert:
  "\<exists>i. select_activity_id (insert_or_ignore_activity acts name) name = Some i"
proof (cases "list_ex (\<lambda>r. nocase_eq (act_name r) name) acts")
  case True
  then show ?thesis
    using find_list_ex [of "\<lambda>r. nocase_eq (act_name r) name" acts]
    by (auto simp: select_activity_id_def insert_or_ignore_activity_def)
next
  case False
  have "nocase_eq name name" by (simp add: nocase_eq_def)
  with False show ?thesis
    by (simp add: select_activity_id_def insert_or_ignore_activity_def find_append_new)
qed

lemma list_ex_after_insert:
  "list_ex (\<lambda>r. nocase_eq (act_name r) name) (insert_or_ignore_activity acts name)"
  by (auto simp: insert_or_ignore_activity_def nocase_eq_def list_ex_iff)

lemma get_or_create_total: "\<exists>acts' i. get_or_create_activity acts name = (acts', Some i)"
  using select_after_insert [of acts name] by (auto simp: get_or_create_activity_def Let_def)




section \<open>Basic facts about the operations\<close>

lemmas time_defs = mk_datetime_def ymd2ord_def days_before_year_def days_before_month_def
  is_leap_def date_of_def combine_min_def mktime_def

lemma fold_max_ge: "(i::int) \<le> fold max xs i \<and> (\<forall>x\<in>set xs. x \<le> fold max xs i)"
proof (induction xs arbitrary: i)
  case Nil
  then show ?case by simp
next
  case (Cons y ys)
  have a: "max y i \<le> fold max ys (max y i)" and b: "\<forall>x\<in>set ys. x \<le> fold max ys (max y i)"
    using Cons.IH [of "max y i"] by auto
  show ?case using a b by auto
qed

lemma next_rowid_greater: "x \<in> set ids \<Longrightarrow> x < next_rowid ids"
proof (cases ids)
  case Nil
  assume "x \<in> set ids"
  with Nil show ?thesis by simp
next
  case (Cons i rest)
  assume "x \<in> set ids"
  then have "x \<le> fold max rest i" using Cons fold_max_ge [of i rest] by auto
  then show ?thesis by (simp add: next_rowid_def Cons)
qed

lemma next_rowid_fresh: "next_rowid ids \<notin> set ids"
  using next_rowid_greater [of "next_rowid ids" ids] by auto

lemma daily_seconds_add:
  "daily_seconds (add_to_daily_total rows d a s) d' a'
     = daily_seconds rows d' a' + (if d' = d \<and> a' = a then s else 0)"
proof (induction rows)
  case Nil
  then show ?case by (simp add: daily_seconds_def)
next
  case (Cons r rows)
  obtain k v where r: "r = (k, v)" by (cases r)
  show ?case using Cons.IH by (auto simp: r daily_seconds_def)
qed

lemma update_row_fields:
  "running (update_current_session_row st t) = running st"
  "start_time (update_current_session_row st t) = start_time st"
  "current_activity_id (update_current_session_row st t) = current_activity_id st"
  "current_session_id (update_current_session_row st t) = current_session_id st"
  "last_autosave_dt (update_current_session_row st t) = last_autosave_dt st"
  "daily_totals (update_current_session_row st t) = daily_totals st"
  "activities (update_current_session_row st t) = activities st"
  by (simp_all add: update_current_session_row_def split: option.splits)

lemma update_row_ids:
  "map sess_id (sessions (update_current_session_row st t)) = map sess_id (sessions st)"
  "map sess_activity_id (sessions (update_current_session_row st t))
     = map sess_activity_id (sessions st)"
  by (simp_all add: update_current_session_row_def split: option.splits)

lemma finalize_fields:
  "running (finalize_current_session_row st t) = running st"
  "start_time (finalize_current_session_row st t) = start_time st"
  "current_activity_id (finalize_current_session_row st t) = current_activity_id st"
  "current_session_id (finalize_current_session_row st t) = None"
  "last_autosave_dt (finalize_current_session_row st t) = last_autosave_dt st"
  "daily_totals (finalize_current_session_row st t) = daily_totals st"
  "activities (finalize_current_session_row st t) = activities st"
  by (simp_all add: finalize_current_session_row_def update_row_fields)

lemma finalize_ids:
  "map sess_id (sessions (finalize_current_session_row st t)) = map sess_id (sessions st)"
  "map sess_activity_id (sessions (finalize_current_session_row st t))
     = map sess_activity_id (sessions st)"
  by (simp_all add: finalize_current_session_row_def update_row_ids)

lemma create_fields:
  "running (create_new_session_row st a t) = running st"
  "start_time (create_new_session_row st a t) = start_time st"
  "current_activity_id (create_new_session_row st a t) = current_activity_id st"
  "current_session_id (create_new_session_row st a t)
     = Some (next_rowid (map sess_id (sessions st)))"
  "last_autosave_dt (create_new_session_row st a t) = last_autosave_dt st"
  "daily_totals (create_new_session_row st a t) = daily_totals st"
  "activities (create_new_session_row st a t) = activities st"
  by (simp_all add: create_new_session_row_def Let_def)

lemma save_previous_fields:
  "current_activity_id (save_previous_activity_if_running st t) = current_activity_id st"
  "last_autosave_dt (save_previous_activity_if_running st t) = last_autosave_dt st"
  "daily_totals (save_previous_activity_if_running st t) = daily_totals st"
  "activities (save_previous_activity_if_running st t) = activities st"
  by (simp_all add: save_previous_activity_if_running_def finalize_fields)

lemma rollover_same_date:
  "date_of ref = date_of now \<Longrightarrow> rollover_midnight_if_needed st ref now = (st, ref)"
  by (simp add: rollover_midnight_if_needed_def split: option.splits)

lemma rollover_last:
  "last_autosave_dt (fst (rollover_midnight_if_needed st ref now)) = last_autosave_dt st"
  by (simp add: rollover_midnight_if_needed_def Let_def create_fields finalize_fields
           split: option.splits)

lemma rollover_ref:
  "running st \<Longrightarrow> current_activity_id st \<noteq> None \<Longrightarrow> date_of ref \<noteq> date_of now \<Longrightarrow>
     snd (rollover_midnight_if_needed st ref now) = combine_min (date_of ref + 1)"
  by (auto simp add: rollover_midnight_if_needed_def Let_def)

lemma midnight_after: "ref < combine_min (date_of ref + 1)"
proof -
  show ?thesis unfolding combine_min_def date_of_def by presburger
qed

lemma sessions_update:
  "running st \<Longrightarrow> current_session_id st = Some sid \<Longrightarrow> start_time st = Some t0 \<Longrightarrow>
     sessions (update_current_session_row st e)
       = map (\<lambda>r. if sess_id r = sid
                   then r\<lparr>end_ts := e, duration_sec := max 0 (mktime e - t0)\<rparr> else r)
             (sessions st)"
  by (simp add: update_current_session_row_def)

lemma sessions_create:
  "sessions (create_new_session_row st a t)
     = sessions st @ [\<lparr>sess_id = next_rowid (map sess_id (sessions st)), sess_activity_id = a,
                       start_ts = t, end_ts = t, duration_sec = 0\<rparr>]"
  by (simp add: create_new_session_row_def Let_def)

lemma rollover_crossing:
  assumes "running st" and "current_activity_id st = Some aid"
    and "date_of ref \<noteq> date_of now"
  shows "rollover_midnight_if_needed st ref now =
           (create_new_session_row
              ((finalize_current_session_row
                  (st\<lparr>daily_totals := add_to_daily_total (daily_totals st) (date_of ref) aid
                                          (combine_min (date_of ref + 1) - ref)\<rparr>)
                  (combine_min (date_of ref + 1)))
                 \<lparr>running := True,
                  start_time := Some (mktime (combine_min (date_of ref + 1))),
                  start_timestamp := Some (combine_min (date_of ref + 1))\<rparr>)
              aid (combine_min (date_of ref + 1)),
            combine_min (date_of ref + 1))"
  using assms midnight_after [of ref]
  by (simp add: rollover_midnight_if_needed_def Let_def)

lemma do_autosave_running:
  assumes "running st" and "current_activity_id st = Some aid"
    and "rollover_midnight_if_needed st (last_autosave_dt st) now = (st1, ref)"
  shows "do_autosave st now =
           update_current_session_row
             (if now - ref > 0
              then st1\<lparr>daily_totals := add_to_daily_total (daily_totals st1) (date_of now) aid
                                          (now - ref),
                       last_autosave_dt := now\<rparr>
              else st1) now"
  using assms by (simp add: do_autosave_def Let_def)

text \<open>A tick that crosses the midnight after the checkpoint and comes after it.\<close>

lemma do_autosave_crossing:
  assumes r: "running st" and a: "current_activity_id st = Some aid"
    and s: "current_session_id st = Some sid" and t: "start_time st = Some t0"
    and d: "date_of (last_autosave_dt st) \<noteq> date_of now"
    and m: "combine_min (date_of (last_autosave_dt st) + 1) < now"
  shows "daily_totals (do_autosave st now)
           = add_to_daily_total
               (add_to_daily_total (daily_totals st) (date_of (last_autosave_dt st)) aid
                  (combine_min (date_of (last_autosave_dt st) + 1) - last_autosave_dt st))
               (date_of now) aid (now - combine_min (date_of (last_autosave_dt st) + 1))"
    and "sessions (do_autosave st now)
           = map (\<lambda>r. if sess_id r = sid
                       then r\<lparr>end_ts := combine_min (date_of (last_autosave_dt st) + 1),
                              duration_sec :=
                                max 0 (mktime (combine_min (date_of (last_autosave_dt st) + 1)) - t0)\<rparr>
                       else r) (sessions st)
             @ [\<lparr>sess_id = next_rowid (map sess_id (sessions st)), sess_activity_id = aid,
                 start_ts = combine_min (date_of (last_autosave_dt st) + 1),
                 end_ts = now,
                 duration_sec = max 0 (mktime now
                                  - mktime (combine_min (date_of (last_autosave_dt st) + 1)))\<rparr>]"
    and "current_session_id (do_autosave st now) = Some (next_rowid (map sess_id (sessions st)))"
    and "last_autosave_dt (do_autosave st now) = now"
    and "running (do_autosave st now)"
    and "current_activity_id (do_autosave st now) = Some aid"
    and "start_time (do_autosave st now)
           = Some (mktime (combine_min (date_of (last_autosave_dt st) + 1)))"
proof -
  let ?ref = "last_autosave_dt st"
  let ?M = "combine_min (date_of ?ref + 1)"
  let ?new = "next_rowid (map sess_id (sessions st))"
  let ?sa = "st\<lparr>daily_totals := add_to_daily_total (daily_totals st) (date_of ?ref) aid (?M - ?ref)\<rparr>"
  let ?sb = "finalize_current_session_row ?sa ?M"
  let ?sc = "?sb\<lparr>running := True, start_time := Some (mktime ?M), start_timestamp := Some ?M\<rparr>"
  let ?sd = "create_new_session_row ?sc aid ?M"
  let ?se = "?sd\<lparr>daily_totals := add_to_daily_total (daily_totals ?sd) (date_of now) aid (now - ?M),
                 last_autosave_dt := now\<rparr>"
  let ?f = "\<lambda>r. if sess_id r = sid
                 then r\<lparr>end_ts := ?M, duration_sec := max 0 (mktime ?M - t0)\<rparr> else r"
  have ro: "rollover_midnight_if_needed st ?ref now = (?sd, ?M)"
    by (rule rollover_crossing [OF r a d])
  have da: "do_autosave st now = update_current_session_row ?se now"
    using do_autosave_running [OF r a ro] m by simp
  have sb: "sessions ?sb = map ?f (sessions st)"
    using r s t by (simp add: finalize_current_session_row_def sessions_update)
  have ids: "map (sess_id \<circ> ?f) (sessions st) = map sess_id (sessions st)"
    by (rule map_cong) auto
  have sd: "sessions ?sd = map ?f (sessions st) @
              [\<lparr>sess_id = ?new, sess_activity_id = aid, start_ts = ?M, end_ts = ?M,
                duration_sec = 0\<rparr>]"
    by (simp add: sessions_create sb ids)
  have cd: "current_session_id ?sd = Some ?new"
    by (simp add: create_fields sb ids)
  have fresh: "\<forall>x\<in>set (sessions st). sess_id x \<noteq> ?new"
    using next_rowid_fresh [of "map sess_id (sessions st)"] by force
  have keep: "map (\<lambda>r. if sess_id r = ?new then r\<lparr>end_ts := now,
                           duration_sec := max 0 (mktime now - mktime ?M)\<rparr> else r)
                (map ?f (sessions st)) = map ?f (sessions st)"
  proof (rule map_idI)
    fix x assume "x \<in> set (map ?f (sessions st))"
    then obtain y where y: "y \<in> set (sessions st)" and x: "x = ?f y" by auto
    have "sess_id x = sess_id y" by (simp add: x)
    then have "sess_id x \<noteq> ?new" using fresh y by simp
    then show "(if sess_id x = ?new then x\<lparr>end_ts := now,
                           duration_sec := max 0 (mktime now - mktime ?M)\<rparr> else x) = x"
      by simp
  qed
  have se_run: "running ?se" by (simp add: create_fields)
  have se_sid: "current_session_id ?se = Some ?new" using cd by simp
  have se_t: "start_time ?se = Some (mktime ?M)" by (simp add: create_fields)
  have se_sess: "sessions ?se = sessions ?sd" by simp
  show "sessions (do_autosave st now) = map ?f (sessions st)
             @ [\<lparr>sess_id = ?new, sess_activity_id = aid, start_ts = ?M, end_ts = now,
                 duration_sec = max 0 (mktime now - mktime ?M)\<rparr>]"
  proof -
    let ?g = "\<lambda>r. if sess_id r = ?new then r\<lparr>end_ts := now,
                           duration_sec := max 0 (mktime now - mktime ?M)\<rparr> else r"
    have "sessions (update_current_session_row ?se now) = map ?g (sessions ?se)"
      by (rule sessions_update [OF se_run se_sid se_t])
    also have "\<dots> = map ?g (map ?f (sessions st)) @
        [?g \<lparr>sess_id = ?new, sess_activity_id = aid, start_ts = ?M, end_ts = ?M,
                duration_sec = 0\<rparr>]"
      by (simp only: se_sess sd map_append list.map)
    also have "\<dots> = map ?f (sessions st) @
        [\<lparr>sess_id = ?new, sess_activity_id = aid, start_ts = ?M, end_ts = now,
                 duration_sec = max 0 (mktime now - mktime ?M)\<rparr>]"
      by (simp only: keep) simp
    finally show ?thesis by (simp only: da)
  qed
  show "daily_totals (do_autosave st now)
           = add_to_daily_total
               (add_to_daily_total (daily_totals st) (date_of ?ref) aid (?M - ?ref))
               (date_of now) aid (now - ?M)"
    unfolding da by (simp add: update_row_fields create_fields finalize_fields)
  show "current_session_id (do_autosave st now) = Some ?new"
    unfolding da using se_sid by (simp add: update_row_fields)
  show "last_autosave_dt (do_autosave st now) = now"
    unfolding da by (simp add: update_row_fields)
  show "running (do_autosave st now)"
    unfolding da using se_run by (simp add: update_row_fields)
  show "current_activity_id (do_autosave st now) = Some aid"
    unfolding da using a by (simp add: update_row_fields create_fields finalize_fields)
  show "start_time (do_autosave st now) = Some (mktime ?M)"
    unfolding da using se_t by (simp add: update_row_fields)
qed

lemma started_work:
  "start_activity (initial_state [] [] [] t0) ''Work'' t
     = Some \<lparr>running = True, start_time = Some (mktime t), start_timestamp = Some t,
              current_activity_id = Some 1, current_activity_name = Some ''Work'',
              current_session_id = Some 1, last_autosave_dt = t,
              activities = seed_default_activities [],
              sessions = [\<lparr>sess_id = 1, sess_activity_id = 1, start_ts = t, end_ts = t,
                           duration_sec = 0\<rparr>],
              daily_totals = []\<rparr>"
proof -
  have seeded: "seed_default_activities [] =
    [\<lparr>act_id = 1, act_name = ''Work''\<rparr>, \<lparr>act_id = 2, act_name = ''Study''\<rparr>,
     \<lparr>act_id = 3, act_name = ''Break''\<rparr>, \<lparr>act_id = 4, act_name = ''Waste''\<rparr>,
     \<lparr>act_id = 5, act_name = ''Projects''\<rparr>, \<lparr>act_id = 6, act_name = ''Custom''\<rparr>]"
    by code_simp
  have g: "get_or_create_activity (seed_default_activities []) ''Work''
             = (seed_default_activities [], Some 1)"
    unfolding seeded by code_simp
  show ?thesis
    by (simp add: start_activity_def initial_state_def save_previous_activity_if_running_def
          g create_new_session_row_def next_rowid_def Let_def)
qed

lemma start_activity_fields:
  "start_activity st name now = Some st' \<Longrightarrow>
     running st' \<and> start_time st' = Some (mktime now) \<and> last_autosave_dt st' = now"
  by (auto simp: start_activity_def create_new_session_row_def Let_def
           split: prod.splits option.splits)

lemma get_or_create_again:
  "get_or_create_activity acts name = (acts', r) \<Longrightarrow> get_or_create_activity acts' name = (acts', r)"
  using list_ex_after_insert [of name acts]
  by (auto simp: get_or_create_activity_def Let_def insert_or_ignore_activity_def [of "insert_or_ignore_activity acts name"])

lemma save_previous_activities_update:
  "save_previous_activity_if_running (st\<lparr>activities := acts\<rparr>) now
     = (save_previous_activity_if_running st now)\<lparr>activities := acts\<rparr>"
  by (auto simp: save_previous_activity_if_running_def finalize_current_session_row_def
        update_current_session_row_def split: option.splits)

lemma start_activity_after_create:
  assumes "get_or_create_activity (activities st) name = (acts', r)"
  shows "start_activity (st\<lparr>activities := acts'\<rparr>) name now = start_activity st name now"
proof -
  have a: "get_or_create_activity acts' name = (acts', r)"
    using assms by (rule get_or_create_again)
  show ?thesis
    by (simp add: start_activity_def save_previous_activities_update save_previous_fields
          assms a Let_def create_new_session_row_def split: option.splits)
qed

section \<open>Day split\<close>

text \<open>
  Claim C2. Let the tracker be running an activity whose live session row exists, with
  the session start and the checkpoint both at 2024-01-01 23:58:00, and let a tick come at
  2024-01-02 00:02:00. Then the stored seconds of that activity grow by exactly 120 for
  2024-01-01 and by exactly 120 for 2024-01-02 and no other daily total changes; the
  original session row gets \<open>end_ts\<close> 2024-01-02 00:00:00 and \<open>duration_sec\<close> 120 and is
  no longer the live one; and a new row of the same activity with \<open>start_ts\<close>
  2024-01-02 00:00:00 is appended and is the live session.
\<close>

theorem day_split_correctness:
  assumes "running st"
    and "current_activity_id st = Some aid"
    and "current_session_id st = Some sid"
    and "sid \<in> set (map sess_id (sessions st))"
    and "start_time st = Some (mktime (mk_datetime 2024 1 1 23 58 0))"
    and "last_autosave_dt st = mk_datetime 2024 1 1 23 58 0"
  shows "daily_seconds (daily_totals (do_autosave st (mk_datetime 2024 1 2 0 2 0))) d a
           = daily_seconds (daily_totals st) d a
             + (if a = aid \<and> (d = date_of (mk_datetime 2024 1 1 0 0 0) \<or>
                               d = date_of (mk_datetime 2024 1 2 0 0 0))
                then 120 else 0) \<and>
         sessions (do_autosave st (mk_datetime 2024 1 2 0 2 0))
           = map (\<lambda>r. if sess_id r = sid
                       then r\<lparr>end_ts := mk_datetime 2024 1 2 0 0 0, duration_sec := 120\<rparr>
                       else r) (sessions st)
             @ [\<lparr>sess_id = next_rowid (map sess_id (sessions st)), sess_activity_id = aid,
                 start_ts = mk_datetime 2024 1 2 0 0 0,
                 end_ts = mk_datetime 2024 1 2 0 2 0, duration_sec = 120\<rparr>] \<and>
         current_session_id (do_autosave st (mk_datetime 2024 1 2 0 2 0))
           = Some (next_rowid (map sess_id (sessions st))) \<and>
         next_rowid (map sess_id (sessions st)) \<noteq> sid \<and>
         running (do_autosave st (mk_datetime 2024 1 2 0 2 0)) \<and>
         current_activity_id (do_autosave st (mk_datetime 2024 1 2 0 2 0)) = Some aid"
proof -
  let ?now = "mk_datetime 2024 1 2 0 2 0"
  have t1: "mk_datetime 2024 1 1 23 58 0 = 63839836680" by (simp add: time_defs)
  have t2: "mk_datetime 2024 1 2 0 2 0 = 63839836920" by (simp add: time_defs)
  have t3: "mk_datetime 2024 1 2 0 0 0 = 63839836800" by (simp add: time_defs)
  have t4: "mk_datetime 2024 1 1 0 0 0 = 63839750400" by (simp add: time_defs)
  have M: "combine_min (date_of (last_autosave_dt st) + 1) = 63839836800"
    by (simp add: assms(6) t1 date_of_def combine_min_def)
  have d: "date_of (last_autosave_dt st) \<noteq> date_of ?now"
    by (simp add: assms(6) t1 t2 date_of_def)
  have m: "combine_min (date_of (last_autosave_dt st) + 1) < ?now"
    by (simp add: M t2)
  have t0: "start_time st = Some 1704153480"
    by (simp add: assms(5) t1 mktime_def)
  note c = do_autosave_crossing [OF assms(1) assms(2) assms(3) t0 d m]
  have ne: "next_rowid (map sess_id (sessions st)) \<noteq> sid"
    using assms(4) next_rowid_fresh [of "map sess_id (sessions st)"] by auto
  have dates: "date_of (last_autosave_dt st) = 738886" "date_of ?now = 738887"
      "date_of (mk_datetime 2024 1 1 0 0 0) = 738886" "date_of (mk_datetime 2024 1 2 0 0 0) = 738887"
    by (simp_all add: assms(6) t1 t2 t3 t4 date_of_def)
  have c1: "daily_seconds (daily_totals (do_autosave st ?now)) d a
           = daily_seconds (daily_totals st) d a
             + (if a = aid \<and> (d = date_of (mk_datetime 2024 1 1 0 0 0) \<or>
                               d = date_of (mk_datetime 2024 1 2 0 0 0))
                then 120 else 0)"
    unfolding c(1) daily_seconds_add by (simp add: assms(6) t1 t2 t3 t4 date_of_def combine_min_def)
  have c2: "sessions (do_autosave st ?now)
           = map (\<lambda>r. if sess_id r = sid
                       then r\<lparr>end_ts := mk_datetime 2024 1 2 0 0 0, duration_sec := 120\<rparr>
                       else r) (sessions st)
             @ [\<lparr>sess_id = next_rowid (map sess_id (sessions st)), sess_activity_id = aid,
                 start_ts = mk_datetime 2024 1 2 0 0 0,
                 end_ts = mk_datetime 2024 1 2 0 2 0, duration_sec = 120\<rparr>]"
    using c(2) by (simp add: M t2 t3 mktime_def)
  show ?thesis using c1 c2 c(3) ne c(5) c(6) by blast
qed

text \<open>The instance on a fresh database: Work started at 23:58:00, then the tick.\<close>

theorem day_split_correctness_witness:
  "(case start_activity (initial_state [] [] [] (mk_datetime 2024 1 1 9 0 0)) ''Work''
           (mk_datetime 2024 1 1 23 58 0) of
      None \<Rightarrow> False
    | Some st \<Rightarrow>
        running st \<and> current_activity_id st = Some 1 \<and> current_session_id st = Some 1 \<and>
        1 \<in> set (map sess_id (sessions st)) \<and>
        start_time st = Some (mktime (mk_datetime 2024 1 1 23 58 0)) \<and>
        last_autosave_dt st = mk_datetime 2024 1 1 23 58 0 \<and>
        daily_seconds (daily_totals (do_autosave st (mk_datetime 2024 1 2 0 2 0)))
          (date_of (mk_datetime 2024 1 1 0 0 0)) 1 = 120 \<and>
        daily_seconds (daily_totals (do_autosave st (mk_datetime 2024 1 2 0 2 0)))
          (date_of (mk_datetime 2024 1 2 0 0 0)) 1 = 120 \<and>
        sessions (do_autosave st (mk_datetime 2024 1 2 0 2 0))
          = [\<lparr>sess_id = 1, sess_activity_id = 1, start_ts = mk_datetime 2024 1 1 23 58 0,
               end_ts = mk_datetime 2024 1 2 0 0 0, duration_sec = 120\<rparr>,
             \<lparr>sess_id = 2, sess_activity_id = 1, start_ts = mk_datetime 2024 1 2 0 0 0,
               end_ts = mk_datetime 2024 1 2 0 2 0, duration_sec = 120\<rparr>] \<and>
        current_session_id (do_autosave st (mk_datetime 2024 1 2 0 2 0)) = Some 2)"
proof -
  let ?st = "\<lparr>running = True, start_time = Some (mktime (mk_datetime 2024 1 1 23 58 0)),
              start_timestamp = Some (mk_datetime 2024 1 1 23 58 0),
              current_activity_id = Some 1, current_activity_name = Some ''Work'',
              current_session_id = Some 1, last_autosave_dt = mk_datetime 2024 1 1 23 58 0,
              activities = seed_default_activities [],
              sessions = [\<lparr>sess_id = 1, sess_activity_id = 1,
                           start_ts = mk_datetime 2024 1 1 23 58 0,
                           end_ts = mk_datetime 2024 1 1 23 58 0, duration_sec = 0\<rparr>],
              daily_totals = []\<rparr>"
  have h: "running ?st" "current_activity_id ?st = Some 1" "current_session_id ?st = Some 1"
    "1 \<in> set (map sess_id (sessions ?st))"
    "start_time ?st = Some (mktime (mk_datetime 2024 1 1 23 58 0))"
    "last_autosave_dt ?st = mk_datetime 2024 1 1 23 58 0"
    by simp_all
  have ne: "date_of (mk_datetime 2024 1 1 0 0 0) \<noteq> date_of (mk_datetime 2024 1 2 0 0 0)"
    by (simp add: time_defs)
  have z: "daily_seconds (daily_totals ?st) d a = 0" for d a
    by (simp add: daily_seconds_def)
  have n: "next_rowid (map sess_id (sessions ?st)) = 2"
    by (simp add: next_rowid_def)
  show ?thesis
    using day_split_correctness [OF h, of "date_of (mk_datetime 2024 1 1 0 0 0)" 1]
          day_split_correctness [OF h, of "date_of (mk_datetime 2024 1 2 0 0 0)" 1]
    unfolding started_work z n
    by simp
qed

section \<open>Start while running\<close>

text \<open>
  Claim C4. A start made while the tracker is running should first credit the time since
  the checkpoint to the day's total. Evaluated: Work is started at 10:00:00 and the
  activity is switched to Study at 10:00:30. The Work session row is closed with 30
  seconds, but \<open>daily_totals\<close> stays empty: the 30 seconds are credited nowhere. Stopping
  at 10:00:30 instead credits them, since \<^verbatim>\<open>stop\<close> runs the autosave first.
\<close>

theorem start_while_running_credits_nothing:
  "map_option (\<lambda>st. (daily_totals st, map duration_sec (sessions st)))
     (run (initial_state [] [] [] (mk_datetime 2024 1 1 9 0 0))
        [Start ''Work'' (mk_datetime 2024 1 1 10 0 0),
         Switch ''Study'' None (mk_datetime 2024 1 1 10 0 30)])
     = Some ([], [30, 0]) \<and>
   map_option (\<lambda>st. (daily_totals st, map duration_sec (sessions st)))
     (run (initial_state [] [] [] (mk_datetime 2024 1 1 9 0 0))
        [Start ''Work'' (mk_datetime 2024 1 1 10 0 0),
         Stop (mk_datetime 2024 1 1 10 0 30)])
     = Some ([((date_of (mk_datetime 2024 1 1 0 0 0), 1), 30)], [30])"
  by code_simp

section \<open>Switch and start\<close>




section \<open>Elapsed time\<close>

text \<open>
  Claim C6. The elapsed time should be zero when the clock is before \<open>start_time\<close>.
  Evaluated: Work is started at 10:00:00 and the clock then reads five seconds earlier.
  The elapsed time is \<open>-5\<close>, not zero, and the text shown is made of the numbers
  \<open>-1\<close>, 59, 55 and 0.
\<close>

theorem current_elapsed_not_clamped:
  "map_option (\<lambda>st. (current_elapsed st (real_of_int (mktime (mk_datetime 2024 1 1 10 0 0)) - 5),
                      current_time_text st (real_of_int (mktime (mk_datetime 2024 1 1 10 0 0)) - 5)))
     (start_activity (initial_state [] [] [] (mk_datetime 2024 1 1 9 0 0)) ''Work''
        (mk_datetime 2024 1 1 10 0 0))
     = Some (- 5, (- 1, 59, 55, 0))"
proof -
  obtain acts' i where g: "get_or_create_activity (seed_default_activities []) ''Work'' = (acts', Some i)"
    using get_or_create_total by blast
  then obtain st where st: "start_activity (initial_state [] [] [] (mk_datetime 2024 1 1 9 0 0)) ''Work''
        (mk_datetime 2024 1 1 10 0 0) = Some st"
    by (simp add: start_activity_def initial_state_def save_previous_activity_if_running_def Let_def)
  from start_activity_fields [OF st]
  have r: "running st" and s: "start_time st = Some (mktime (mk_datetime 2024 1 1 10 0 0))" by auto
  have e: "current_elapsed st (real_of_int (mktime (mk_datetime 2024 1 1 10 0 0)) - 5) = - 5"
    by (simp add: current_elapsed_def r s)
  have f1: "\<lfloor>- (1::real) / 12\<rfloor> = - 1" by (simp add: floor_eq_iff)
  have f2: "\<lfloor>- (1::real) / 60\<rfloor> = - 1" by (simp add: floor_eq_iff)
  have f3: "\<lceil>- (1::real)\<rceil> = - 1" by (simp add: ceiling_eq_iff)
  have t: "current_time_text st (real_of_int (mktime (mk_datetime 2024 1 1 10 0 0)) - 5) = (- 1, 59, 55, 0)"
    unfolding current_time_text_def e by (simp add: py_divmod_def py_int_def Let_def f1 f2 f3)
  show ?thesis by (simp add: st e t)
qed

section \<open>Ticks with the clock set back\<close>

text \<open>
  Claim C7, as the code has it. Let a tick come with a clock reading earlier than the
  checkpoint. While the tracker is running, the checkpoint stays where it is, and when the
  reading is on the checkpoint's calendar day no daily total changes. While it is idle, no
  daily total changes and the checkpoint is set to the reading.
\<close>

theorem no_negative_credit:
  assumes "now < last_autosave_dt st"
  shows "if running st \<and> current_activity_id st \<noteq> None
         then last_autosave_dt (do_autosave st now) = last_autosave_dt st \<and>
              (date_of now = date_of (last_autosave_dt st)
                 \<longrightarrow> daily_totals (do_autosave st now) = daily_totals st)
         else daily_totals (do_autosave st now) = daily_totals st \<and>
              last_autosave_dt (do_autosave st now) = now"
proof (cases "running st \<and> current_activity_id st \<noteq> None")
  case False
  then show ?thesis by (auto simp: do_autosave_def split: option.splits)
next
  case True
  then obtain aid where aid: "current_activity_id st = Some aid" and r: "running st" by auto
  let ?ref = "last_autosave_dt st"
  obtain st1 ref' where ro: "rollover_midnight_if_needed st ?ref now = (st1, ref')"
    by (cases "rollover_midnight_if_needed st ?ref now")
  have l1: "last_autosave_dt st1 = ?ref" using rollover_last [of st ?ref now] ro by simp
  have ge: "?ref \<le> ref'"
  proof (cases "date_of ?ref = date_of now")
    case True then show ?thesis using ro by (auto simp: rollover_same_date)
  next
    case False
    then have "ref' = combine_min (date_of ?ref + 1)"
      using rollover_ref [of st ?ref now] r aid ro by simp
    then show ?thesis using midnight_after [of ?ref] by simp
  qed
  then have nd: "\<not> now - ref' > 0" using assms by simp
  have da: "do_autosave st now = update_current_session_row st1 now"
    using r aid ro nd by (simp add: do_autosave_def Let_def)
  have same: "date_of now = date_of ?ref \<Longrightarrow> st1 = st"
    using ro by (simp add: rollover_same_date)
  show ?thesis using True l1 same by (auto simp: da update_row_fields)
qed

theorem no_negative_credit_witness:
  "mk_datetime 2024 1 1 8 0 0 < last_autosave_dt (initial_state [] [] [] (mk_datetime 2024 1 1 9 0 0)) \<and>
   \<not> running (initial_state [] [] [] (mk_datetime 2024 1 1 9 0 0)) \<and>
   daily_totals (do_autosave (initial_state [] [] [] (mk_datetime 2024 1 1 9 0 0))
       (mk_datetime 2024 1 1 8 0 0)) = [] \<and>
   last_autosave_dt (do_autosave (initial_state [] [] [] (mk_datetime 2024 1 1 9 0 0))
       (mk_datetime 2024 1 1 8 0 0)) = mk_datetime 2024 1 1 8 0 0 \<and>
   (case start_activity (initial_state [] [] [] (mk_datetime 2024 1 1 9 0 0)) ''Work''
           (mk_datetime 2024 1 1 10 0 0) of
      None \<Rightarrow> False
    | Some st \<Rightarrow>
        mk_datetime 2024 1 1 9 59 0 < last_autosave_dt st \<and>
        running st \<and> current_activity_id st \<noteq> None \<and>
        date_of (mk_datetime 2024 1 1 9 59 0) = date_of (last_autosave_dt st) \<and>
        last_autosave_dt (do_autosave st (mk_datetime 2024 1 1 9 59 0)) = last_autosave_dt st \<and>
        daily_totals (do_autosave st (mk_datetime 2024 1 1 9 59 0)) = daily_totals st)"
proof -
  obtain st where st: "start_activity (initial_state [] [] [] (mk_datetime 2024 1 1 9 0 0)) ''Work''
           (mk_datetime 2024 1 1 10 0 0) = Some st"
    using get_or_create_total [of "seed_default_activities []" "''Work''"]
    by (auto simp add: start_activity_def initial_state_def save_previous_activity_if_running_def Let_def)
  have f: "running st" "current_activity_id st \<noteq> None" "last_autosave_dt st = mk_datetime 2024 1 1 10 0 0"
    using st by (auto simp: start_activity_def create_new_session_row_def Let_def
           split: prod.splits option.splits)
  have lt: "mk_datetime 2024 1 1 9 59 0 < last_autosave_dt st"
    unfolding f by code_simp
  have d: "date_of (mk_datetime 2024 1 1 9 59 0) = date_of (last_autosave_dt st)"
    unfolding f by code_simp
  let ?s0 = "initial_state [] [] [] (mk_datetime 2024 1 1 9 0 0)"
  have lt0: "mk_datetime 2024 1 1 8 0 0 < last_autosave_dt ?s0"
    by (simp add: initial_state_def time_defs)
  have idle: "\<not> running ?s0" "daily_totals ?s0 = []"
    by (simp_all add: initial_state_def)
  show ?thesis
    using no_negative_credit [OF lt] no_negative_credit [OF lt0] f(1,2) d lt lt0 idle
    by (simp add: st)
qed

text \<open>Counterexample to claim C7 as stated, in two cases. An idle tick at 09:00:00 moves a checkpoint of
  10:00:00 back. A tick at 2024-01-01 23:59:00 while Work runs with its checkpoint at
  2024-01-02 00:01:00 credits 86340 seconds to 2024-01-02.\<close>

theorem no_negative_credit_counterexample:
  "last_autosave_dt (do_autosave (initial_state [] [] [] (mk_datetime 2024 1 1 10 0 0))
       (mk_datetime 2024 1 1 9 0 0))
     < last_autosave_dt (initial_state [] [] [] (mk_datetime 2024 1 1 10 0 0)) \<and>
   map_option daily_totals
     (run (initial_state [] [] [] (mk_datetime 2024 1 1 9 0 0))
        [Start ''Work'' (mk_datetime 2024 1 2 0 1 0),
         Tick (mk_datetime 2024 1 1 23 59 0)])
     = Some [((date_of (mk_datetime 2024 1 2 0 0 0), 1), 86340)]"
  by code_simp

section \<open>Gaps of several days\<close>

text \<open>
  Claim C8. A tick that comes several days after the checkpoint should credit every
  day in between with the time that fell on it. Evaluated: Work is started at 2024-01-01
  23:58:00 and the next tick comes at 2024-01-04 00:02:00. The day split runs once:
  2024-01-01 gets 120 seconds, 2024-01-02 and 2024-01-03 get no row at all, and
  2024-01-04 gets 172920 seconds, two days more than the 120 that fell on it.
\<close>

theorem multi_day_gap_single_split:
  "map_option daily_totals
     (run (initial_state [] [] [] (mk_datetime 2024 1 1 9 0 0))
        [Start ''Work'' (mk_datetime 2024 1 1 23 58 0),
         Tick (mk_datetime 2024 1 4 0 2 0)])
     = Some [((date_of (mk_datetime 2024 1 1 0 0 0), 1), 120),
             ((date_of (mk_datetime 2024 1 4 0 0 0), 1), 2 * 86400 + 120)]"
  by code_simp

section \<open>Checkpoint and live session\<close>

text \<open>
  Claim C10. The checkpoint should never be earlier than the start of the live
  session. Evaluated: Work is started at 2024-01-01 23:58:00 and a tick comes at
  2024-01-02 00:00:00 exactly. The day split opens a new live session starting at
  midnight, but the checkpoint stays at 23:58:00. The next tick, at 00:01:00, splits
  again and credits the 120 seconds before midnight a second time: 2024-01-01 holds 240
  seconds.
\<close>

theorem checkpoint_behind_live_session:
  "map_option (\<lambda>st. (last_autosave_dt st, map start_ts (live_sessions st)))
     (run (initial_state [] [] [] (mk_datetime 2024 1 1 9 0 0))
        [Start ''Work'' (mk_datetime 2024 1 1 23 58 0),
         Tick (mk_datetime 2024 1 2 0 0 0)])
     = Some (mk_datetime 2024 1 1 23 58 0, [mk_datetime 2024 1 2 0 0 0]) \<and>
   map_option daily_totals
     (run (initial_state [] [] [] (mk_datetime 2024 1 1 9 0 0))
        [Start ''Work'' (mk_datetime 2024 1 1 23 58 0),
         Tick (mk_datetime 2024 1 2 0 0 0),
         Tick (mk_datetime 2024 1 2 0 1 0)])
     = Some [((date_of (mk_datetime 2024 1 1 0 0 0), 1), 240),
             ((date_of (mk_datetime 2024 1 2 0 0 0), 1), 60)]"
  by code_simp

section \<open>The live session\<close>

lemma list_ex_keys:
  "map sess_id xs = map sess_id ys \<Longrightarrow> map sess_activity_id xs = map sess_activity_id ys \<Longrightarrow>
     list_ex (\<lambda>r. Q (sess_id r) (sess_activity_id r)) xs
       = list_ex (\<lambda>r. Q (sess_id r) (sess_activity_id r)) ys"
proof (induction xs arbitrary: ys)
  case Nil
  then show ?case by simp
next
  case (Cons x xs)
  then obtain y ys' where ys: "ys = y # ys'" by (cases ys) auto
  show ?case using Cons.prems Cons.IH [of ys'] by (simp add: ys)
qed

lemma inv_update_row: "tracker_inv st \<Longrightarrow> tracker_inv (update_current_session_row st t)"
  using list_ex_keys [OF update_row_ids(1) update_row_ids(2),
          of "\<lambda>i a. current_session_id st = Some i \<and> current_activity_id st = Some a" st t]
  by (simp add: tracker_inv_def update_row_fields update_row_ids)

lemma inv_finalize_idle:
  "tracker_inv st \<Longrightarrow>
     tracker_inv ((finalize_current_session_row st t)
                    \<lparr>running := False, start_time := None, start_timestamp := None\<rparr>)"
  by (simp add: tracker_inv_def finalize_fields finalize_ids)

lemma inv_save_previous:
  "tracker_inv st \<Longrightarrow> tracker_inv (save_previous_activity_if_running st t)"
  by (simp add: save_previous_activity_if_running_def inv_finalize_idle)

lemma save_previous_idle:
  "tracker_inv st \<Longrightarrow> \<not> running (save_previous_activity_if_running st t)"
  by (auto simp: save_previous_activity_if_running_def tracker_inv_def)

text \<open>Opening a session row on a running state whose rows have distinct ids.\<close>

lemma inv_open:
  assumes "distinct (map sess_id (sessions st))" and "running st"
    and "current_activity_id st = Some aid" and "start_time st \<noteq> None"
  shows "tracker_inv (create_new_session_row st aid t)"
  using assms next_rowid_fresh [of "map sess_id (sessions st)"]
  by (simp add: tracker_inv_def create_new_session_row_def Let_def)

lemma inv_start_activity:
  assumes i: "tracker_inv st" and s: "start_activity st name now = Some st'"
  shows "tracker_inv st'"
proof -
  let ?st1 = "save_previous_activity_if_running st now"
  obtain acts' aid where g: "get_or_create_activity (activities ?st1) name = (acts', Some aid)"
    using get_or_create_total by blast
  have d: "distinct (map sess_id (sessions ?st1))"
    using inv_save_previous [OF i] by (simp add: tracker_inv_def)
  let ?st2 = "?st1\<lparr>current_activity_name := Some name, activities := acts',
                     current_activity_id := Some aid, running := True,
                     start_time := Some (mktime now), start_timestamp := Some now,
                     last_autosave_dt := now\<rparr>"
  have e: "st' = create_new_session_row ?st2 aid now"
    using s by (auto simp: start_activity_def g Let_def)
  have "tracker_inv (create_new_session_row ?st2 aid now)"
    by (rule inv_open) (simp_all add: d)
  then show ?thesis by (simp only: e)
qed

lemma inv_rollover:
  assumes i: "tracker_inv st"
  shows "tracker_inv (fst (rollover_midnight_if_needed st ref now))"
proof (cases "running st \<and> current_activity_id st \<noteq> None \<and> date_of ref \<noteq> date_of now")
  case False
  then have "fst (rollover_midnight_if_needed st ref now) = st"
    by (auto simp: rollover_midnight_if_needed_def split: option.splits)
  with i show ?thesis by simp
next
  case True
  then obtain aid where a: "current_activity_id st = Some aid" and r: "running st"
    and d: "date_of ref \<noteq> date_of now" by auto
  let ?M = "combine_min (date_of ref + 1)"
  let ?sc = "(finalize_current_session_row
               (st\<lparr>daily_totals := add_to_daily_total (daily_totals st) (date_of ref) aid
                                       (?M - ref)\<rparr>) ?M)
              \<lparr>running := True, start_time := Some (mktime ?M), start_timestamp := Some ?M\<rparr>"
  have "tracker_inv (create_new_session_row ?sc aid ?M)"
  proof (rule inv_open)
    show "distinct (map sess_id (sessions ?sc))"
      using i by (simp add: finalize_ids tracker_inv_def)
    show "current_activity_id ?sc = Some aid" using a by (simp add: finalize_fields)
  qed simp_all
  then show ?thesis by (simp only: rollover_crossing [OF r a d] fst_conv)
qed

lemma inv_do_autosave:
  assumes i: "tracker_inv st"
  shows "tracker_inv (do_autosave st now)"
proof (cases "running st \<and> current_activity_id st \<noteq> None")
  case False
  then have "do_autosave st now = st\<lparr>last_autosave_dt := now\<rparr>"
    by (auto simp: do_autosave_def split: option.splits)
  with i show ?thesis by (simp add: tracker_inv_def)
next
  case True
  then obtain aid where a: "current_activity_id st = Some aid" and r: "running st" by auto
  obtain st1 ref where ro: "rollover_midnight_if_needed st (last_autosave_dt st) now = (st1, ref)"
    by (cases "rollover_midnight_if_needed st (last_autosave_dt st) now")
  have i1: "tracker_inv st1" using inv_rollover [OF i, of "last_autosave_dt st" now] ro by simp
  have i2: "tracker_inv (st1\<lparr>daily_totals := add_to_daily_total (daily_totals st1) (date_of now) aid
                                          (now - ref), last_autosave_dt := now\<rparr>)"
    using i1 by (simp add: tracker_inv_def)
  show ?thesis
    unfolding do_autosave_running [OF r a ro]
    using i1 i2 by (simp add: inv_update_row)
qed

lemma inv_stop: "tracker_inv st \<Longrightarrow> tracker_inv (stop st now)"
  by (simp add: stop_def inv_do_autosave inv_save_previous)

lemma start_activity_total: "\<exists>st'. start_activity st name now = Some st'"
proof -
  obtain acts' aid where
    "get_or_create_activity (activities (save_previous_activity_if_running st now)) name
       = (acts', Some aid)"
    using get_or_create_total by blast
  then show ?thesis by (simp add: start_activity_def Let_def)
qed

lemma switch_activity_cases:
  "switch_activity st selected custom now = Some st \<or>
   (\<exists>name. switch_activity st selected custom now = start_activity st name now)"
proof (cases "selected = ''Custom''")
  case False
  then show ?thesis by (auto simp: switch_activity_def)
next
  case True
  show ?thesis
  proof (cases custom)
    case None
    with True show ?thesis by (simp add: switch_activity_def)
  next
    case (Some c)
    obtain acts' i where g: "get_or_create_activity (activities st) c = (acts', Some i)"
      using get_or_create_total by blast
    show ?thesis
      using True Some start_activity_after_create [OF g, of now]
      by (auto simp: switch_activity_def g)
  qed
qed

lemma step_total: "\<exists>st'. step st x = Some st'"
proof (cases x)
  case (Start name now)
  then show ?thesis using start_activity_total [of st name now] by (auto simp: start_def)
next
  case (Switch selected custom now)
  then show ?thesis
    using switch_activity_cases [of st selected custom now] start_activity_total [of st _ now]
    by (metis step.simps(2))
next
  case (Stop now)
  then show ?thesis by simp
next
  case (Tick now)
  then show ?thesis by simp
qed

lemma inv_step:
  assumes i: "tracker_inv st" and s: "step st x = Some st'"
  shows "tracker_inv st'"
proof (cases x)
  case (Start name now)
  then show ?thesis using i s inv_start_activity [of st name now st']
    by (auto simp: start_def split: if_splits)
next
  case (Switch selected custom now)
  then show ?thesis
    using i s switch_activity_cases [of st selected custom now] inv_start_activity [of st _ now st']
    by auto
next
  case (Stop now)
  then show ?thesis using i s inv_stop [of st now] by auto
next
  case (Tick now)
  then show ?thesis using i s inv_do_autosave [of st now] by auto
qed

lemma inv_run: "tracker_inv st \<Longrightarrow> \<exists>st'. run st ops = Some st' \<and> tracker_inv st'"
proof (induction ops arbitrary: st)
  case Nil
  then show ?case by simp
next
  case (Cons x xs)
  obtain st1 where s: "step st x = Some st1" using step_total by blast
  have "tracker_inv st1" using inv_step [OF Cons.prems s] .
  then show ?case using Cons.IH [of st1] by (simp add: s)
qed

lemma filter_distinct_key:
  "distinct (map f xs) \<Longrightarrow> x \<in> set xs \<Longrightarrow> filter (\<lambda>y. f y = f x) xs = [x]"
proof (induction xs)
  case Nil
  then show ?case by simp
next
  case (Cons y ys)
  show ?case
  proof (cases "y = x")
    case True
    have "f x \<notin> f ` set ys" using Cons.prems(1) True by simp
    then have "\<forall>z\<in>set ys. f z \<noteq> f x" by (metis imageI)
    then have "filter (\<lambda>z. f z = f x) ys = []"
      by (simp add: filter_empty_conv)
    with True show ?thesis by simp
  next
    case False
    then have "x \<in> set ys" using Cons.prems(2) by simp
    moreover have "f y \<noteq> f x" using Cons.prems(1) \<open>x \<in> set ys\<close> by auto
    ultimately show ?thesis using Cons by simp
  qed
qed

lemma inv_live:
  assumes i: "tracker_inv st"
  shows "length (live_sessions st) = (if running st then 1 else 0) \<and>
         (\<forall>r\<in>set (live_sessions st). current_activity_id st = Some (sess_activity_id r))"
proof (cases "running st")
  case False
  with i have "current_session_id st = None" by (simp add: tracker_inv_def)
  then show ?thesis using False by (simp add: live_sessions_def)
next
  case True
  with i obtain r0 where r0: "r0 \<in> set (sessions st)"
      and s: "current_session_id st = Some (sess_id r0)"
      and a: "current_activity_id st = Some (sess_activity_id r0)"
    by (auto simp: tracker_inv_def list_ex_iff)
  have d: "distinct (map sess_id (sessions st))" using i by (simp add: tracker_inv_def)
  have "live_sessions st = filter (\<lambda>y. sess_id y = sess_id r0) (sessions st)"
    by (simp add: live_sessions_def s eq_commute)
  then have "live_sessions st = [r0]" using filter_distinct_key [OF d r0] by simp
  then show ?thesis using True a by simp
qed

text \<open>
  Claim C3. Start the tracker on any database whose session rows have distinct ids (the
  primary key) and apply any finite sequence of start, switch, stop and tick operations.
  No operation fails, and in the state reached the session table holds exactly one live
  row when the tracker is running and none when it is idle; the activity of a live row is
  \<open>current_activity_id\<close>.
\<close>

theorem at_most_one_live_session:
  assumes "distinct (map sess_id sess)"
  shows "\<exists>st'. run (initial_state acts sess dts t0) ops = Some st' \<and>
           length (live_sessions st') = (if running st' then 1 else 0) \<and>
           (\<forall>r\<in>set (live_sessions st'). current_activity_id st' = Some (sess_activity_id r))"
proof -
  have "tracker_inv (initial_state acts sess dts t0)"
    using assms by (simp add: tracker_inv_def initial_state_def)
  then obtain st' where "run (initial_state acts sess dts t0) ops = Some st'" and "tracker_inv st'"
    using inv_run by blast
  then show ?thesis using inv_live by blast
qed

text \<open>An instance: Work is started, a tick crosses midnight, the activity is switched to Study.\<close>

theorem at_most_one_live_session_witness:
  "distinct (map sess_id ([] :: sess_row list)) \<and>
   (\<exists>st'. run (initial_state [] [] [] (mk_datetime 2024 1 1 9 0 0))
            [Start ''Work'' (mk_datetime 2024 1 1 23 58 0), Tick (mk_datetime 2024 1 2 0 2 0),
             Switch ''Study'' None (mk_datetime 2024 1 2 0 3 0)] = Some st' \<and>
          running st' \<and> length (live_sessions st') = 1 \<and>
          current_activity_id st' = Some 2 \<and>
          map sess_activity_id (live_sessions st') = [2])"
proof -
  let ?s0 = "initial_state [] [] [] (mk_datetime 2024 1 1 9 0 0)"
  let ?ops = "[Start ''Work'' (mk_datetime 2024 1 1 23 58 0), Tick (mk_datetime 2024 1 2 0 2 0),
             Switch ''Study'' None (mk_datetime 2024 1 2 0 3 0)]"
  have h: "distinct (map sess_id ([] :: sess_row list))" by simp
  obtain st' where r: "run ?s0 ?ops = Some st'"
    and n: "length (live_sessions st') = (if running st' then 1 else 0)"
    and b: "\<forall>r\<in>set (live_sessions st'). current_activity_id st' = Some (sess_activity_id r)"
    using at_most_one_live_session [OF h, of "[]" "[]" "mk_datetime 2024 1 1 9 0 0" ?ops]
    by blast
  have "map_option (\<lambda>st. (running st, current_activity_id st)) (run ?s0 ?ops) = Some (True, Some 2)"
    by code_simp
  then have "(running st', current_activity_id st') = (True, Some 2)"
    unfolding r by simp
  then have ru: "running st'" and ca: "current_activity_id st' = Some 2" by simp_all
  have l1: "length (live_sessions st') = 1" using n ru by simp
  then obtain x where x: "live_sessions st' = [x]"
    by (cases "live_sessions st'") auto
  have "sess_activity_id x = 2" using b ca x by simp
  then show ?thesis using h r ru l1 ca x by simp
qed

section \<open>Seconds of an interval on a calendar day\<close>

lemma day_bounds: "combine_min (date_of t) \<le> t \<and> t < combine_min (date_of t + 1)"
  unfolding combine_min_def date_of_def by presburger

lemma date_of_mono: "a \<le> b \<Longrightarrow> date_of a \<le> date_of b"
  unfolding date_of_def by (rule zdiv_mono1) simp_all

lemma combine_min_mono: "d \<le> e \<Longrightarrow> combine_min d \<le> combine_min e"
  by (simp add: combine_min_def)

lemma combine_min_step: "combine_min (d + 1) = combine_min d + 86400"
  by (simp add: combine_min_def algebra_simps)

lemma secs_empty: "secs_on_date a a d = 0"
  by (simp add: secs_on_date_def combine_min_step)

lemma secs_add:
  "a \<le> b \<Longrightarrow> b \<le> c \<Longrightarrow> secs_on_date a b d + secs_on_date b c d = secs_on_date a c d"
  by (simp add: secs_on_date_def combine_min_step max_def min_def)

lemma secs_within_day:
  assumes "a \<le> b" and "combine_min e \<le> a" and "b \<le> combine_min (e + 1)"
  shows "secs_on_date a b d = (if d = e then b - a else 0)"
proof -
  consider "d < e" | "d = e" | "e < d" by linarith
  then show ?thesis
  proof cases
    case 1
    then have "combine_min (d + 1) \<le> combine_min e" by (simp add: combine_min_mono)
    then show ?thesis using assms 1 by (simp add: secs_on_date_def)
  next
    case 2
    then show ?thesis using assms by (simp add: secs_on_date_def)
  next
    case 3
    then have "combine_min (e + 1) \<le> combine_min d" by (simp add: combine_min_mono)
    then show ?thesis using assms 3 by (simp add: secs_on_date_def)
  qed
qed

lemma secs_same_day:
  assumes "a \<le> b" and "date_of a = date_of b"
  shows "secs_on_date a b d = (if d = date_of b then b - a else 0)"
  using secs_within_day [of a b "date_of b" d] assms day_bounds [of a] day_bounds [of b]
  by simp

lemma secs_to_midnight:
  "secs_on_date a (combine_min (date_of a + 1)) d
     = (if d = date_of a then combine_min (date_of a + 1) - a else 0)"
  using secs_within_day [of a "combine_min (date_of a + 1)" "date_of a" d] day_bounds [of a]
  by simp

lemma secs_crossing:
  assumes "date_of b = date_of a + 1"
  shows "secs_on_date a b d
     = (if d = date_of a then combine_min (date_of a + 1) - a else 0)
       + (if d = date_of b then b - combine_min (date_of a + 1) else 0)"
proof -
  let ?M = "combine_min (date_of a + 1)"
  have 1: "a \<le> ?M" using day_bounds [of a] by simp
  have 2: "?M \<le> b" using day_bounds [of b] assms by simp
  have 3: "b \<le> combine_min (date_of b + 1)" using day_bounds [of b] by simp
  have "secs_on_date ?M b d = (if d = date_of b then b - ?M else 0)"
    using secs_within_day [of ?M b "date_of b" d] 2 3 assms by simp
  then show ?thesis using secs_add [OF 1 2, of d] secs_to_midnight [of a d] by simp
qed

section \<open>Conservation of credited time\<close>

lemma rollover_daily_crossing:
  assumes "running st" and "current_activity_id st = Some aid" and "date_of ref \<noteq> date_of now"
  shows "daily_totals (fst (rollover_midnight_if_needed st ref now))
           = add_to_daily_total (daily_totals st) (date_of ref) aid
               (combine_min (date_of ref + 1) - ref)"
    and "running (fst (rollover_midnight_if_needed st ref now))"
    and "current_activity_id (fst (rollover_midnight_if_needed st ref now)) = Some aid"
    and "start_time (fst (rollover_midnight_if_needed st ref now)) \<noteq> None"
    and "snd (rollover_midnight_if_needed st ref now) = combine_min (date_of ref + 1)"
  using assms(2)
  by (simp_all add: rollover_crossing [OF assms] create_fields finalize_fields)

text \<open>What a tick while running does to the daily totals and to the fields the
  accounting depends on.\<close>

lemma tick_credit:
  assumes r: "running st" and a: "current_activity_id st = Some aid"
    and le: "last_autosave_dt st \<le> now"
    and day: "date_of now \<le> date_of (last_autosave_dt st) + 1"
  shows "daily_seconds (daily_totals (do_autosave st now)) d a'
           = daily_seconds (daily_totals st) d a'
             + (if a' = aid then secs_on_date (last_autosave_dt st) now d else 0)"
proof -
  let ?ref = "last_autosave_dt st"
  obtain st1 ref' where ro: "rollover_midnight_if_needed st ?ref now = (st1, ref')"
    by (cases "rollover_midnight_if_needed st ?ref now")
  note da = do_autosave_running [OF r a ro]
  show ?thesis
  proof (cases "date_of ?ref = date_of now")
    case True
    then have e: "st1 = st" "ref' = ?ref" using ro by (auto simp: rollover_same_date)
    show ?thesis
      unfolding da e
      using le secs_same_day [OF le True, of d]
      by (auto simp: update_row_fields daily_seconds_add secs_empty)
  next
    case False
    then have nxt: "date_of now = date_of ?ref + 1"
      using day date_of_mono [OF le] by linarith
    have d1: "daily_totals st1 = add_to_daily_total (daily_totals st) (date_of ?ref) aid
                (combine_min (date_of ?ref + 1) - ?ref)"
      and rf: "ref' = combine_min (date_of ?ref + 1)"
      using rollover_daily_crossing [OF r a False] ro by simp_all
    have ge: "ref' \<le> now" using day_bounds [of now] nxt rf by simp
    show ?thesis
      unfolding da
      using ge secs_crossing [OF nxt, of d]
      by (auto simp: update_row_fields daily_seconds_add d1 rf)
  qed
qed

lemma tick_fields:
  assumes r: "running st" and a: "current_activity_id st = Some aid"
    and t: "start_time st \<noteq> None"
  shows "running (do_autosave st now)"
    and "current_activity_id (do_autosave st now) = Some aid"
    and "start_time (do_autosave st now) \<noteq> None"
proof -
  let ?ref = "last_autosave_dt st"
  obtain st1 ref' where ro: "rollover_midnight_if_needed st ?ref now = (st1, ref')"
    by (cases "rollover_midnight_if_needed st ?ref now")
  note da = do_autosave_running [OF r a ro]
  have f: "running st1 \<and> current_activity_id st1 = Some aid \<and> start_time st1 \<noteq> None"
  proof (cases "date_of ?ref = date_of now")
    case True
    then have "st1 = st" using ro by (simp add: rollover_same_date)
    then show ?thesis using r a t by simp
  next
    case False
    then show ?thesis using rollover_daily_crossing [OF r a False] ro by simp
  qed
  show "running (do_autosave st now)" unfolding da using f by (simp add: update_row_fields)
  show "current_activity_id (do_autosave st now) = Some aid"
    unfolding da using f by (simp add: update_row_fields)
  show "start_time (do_autosave st now) \<noteq> None"
    unfolding da using f by (simp add: update_row_fields)
qed

lemma tick_checkpoint:
  assumes r: "running st" and a: "current_activity_id st = Some aid"
    and le: "last_autosave_dt st \<le> now"
    and after: "date_of now = date_of (last_autosave_dt st) \<or> combine_min (date_of now) < now"
    and day: "date_of now \<le> date_of (last_autosave_dt st) + 1"
  shows "last_autosave_dt (do_autosave st now) = now"
proof -
  let ?ref = "last_autosave_dt st"
  obtain st1 ref' where ro: "rollover_midnight_if_needed st ?ref now = (st1, ref')"
    by (cases "rollover_midnight_if_needed st ?ref now")
  note da = do_autosave_running [OF r a ro]
  have l1: "last_autosave_dt st1 = ?ref" using rollover_last [of st ?ref now] ro by simp
  show ?thesis
  proof (cases "date_of ?ref = date_of now")
    case True
    then have e: "ref' = ?ref" using ro by (auto simp: rollover_same_date)
    show ?thesis unfolding da e using le l1 by (auto simp: update_row_fields)
  next
    case False
    then have nxt: "date_of now = date_of ?ref + 1"
      using day date_of_mono [OF le] by linarith
    have rf: "ref' = combine_min (date_of now)"
      using rollover_daily_crossing(5) [OF r a False] ro nxt by simp
    have "ref' < now" using after False rf by auto
    then show ?thesis unfolding da by (simp add: update_row_fields)
  qed
qed

lemma idle_tick: "\<not> running st \<Longrightarrow> do_autosave st now = st\<lparr>last_autosave_dt := now\<rparr>"
  by (simp add: do_autosave_def split: option.splits)

lemma start_activity_effect:
  assumes "start_activity st name now = Some st'"
  shows "running st'" and "current_activity_id st' \<noteq> None" and "start_time st' \<noteq> None"
    and "last_autosave_dt st' = now" and "daily_totals st' = daily_totals st"
  using assms
  by (auto simp: start_activity_def create_new_session_row_def Let_def save_previous_fields
           split: prod.splits option.splits)

lemma pending_idle: "\<not> running st \<Longrightarrow> pending st T d a = 0"
  by (simp add: pending_def)

lemma pending_fresh: "last_autosave_dt st = T \<Longrightarrow> pending st T d a = 0"
  by (simp add: pending_def secs_empty)

lemma conservation_start_activity:
  assumes idle: "\<not> running st" and s: "start_activity st name now = Some st'"
  shows "(running st' \<longrightarrow> current_activity_id st' \<noteq> None \<and> start_time st' \<noteq> None \<and>
            last_autosave_dt st' \<le> now) \<and>
         daily_seconds (daily_totals st') d a + pending st' now d a
           = daily_seconds (daily_totals st) d a + pending st T d a
             + (if running st \<and> current_activity_id st = Some a
                then secs_on_date T now d else 0)"
  using start_activity_effect [OF s] idle
  by (simp add: pending_idle pending_fresh)

lemma conservation_tick:
  assumes inv: "running st \<longrightarrow> current_activity_id st \<noteq> None \<and> start_time st \<noteq> None \<and>
                  last_autosave_dt st \<le> T"
    and le: "T \<le> now" and ok: "op_ok st (Tick now)"
  shows "(running (do_autosave st now) \<longrightarrow>
            current_activity_id (do_autosave st now) \<noteq> None \<and>
            start_time (do_autosave st now) \<noteq> None \<and>
            last_autosave_dt (do_autosave st now) \<le> now) \<and>
         daily_seconds (daily_totals (do_autosave st now)) d a
             + pending (do_autosave st now) now d a
           = daily_seconds (daily_totals st) d a + pending st T d a
             + (if running st \<and> current_activity_id st = Some a
                then secs_on_date T now d else 0)"
proof (cases "running st")
  case False
  then show ?thesis by (simp add: idle_tick pending_idle)
next
  case True
  then obtain aid where a: "current_activity_id st = Some aid"
    and t: "start_time st \<noteq> None" and lT: "last_autosave_dt st \<le> T"
    using inv by auto
  have l: "last_autosave_dt st \<le> now" using lT le by simp
  have day: "date_of now \<le> date_of (last_autosave_dt st) + 1"
    and after: "date_of now = date_of (last_autosave_dt st) \<or> combine_min (date_of now) < now"
    using ok True by simp_all
  note f = tick_fields [OF True a t, of now]
  have c: "last_autosave_dt (do_autosave st now) = now"
    by (rule tick_checkpoint [OF True a l after day])
  show ?thesis
    using f c True a tick_credit [OF True a l day, of d a] secs_add [OF lT le, of d]
    by (auto simp: pending_def secs_empty)
qed

lemma conservation_stop:
  assumes inv: "running st \<longrightarrow> current_activity_id st \<noteq> None \<and> start_time st \<noteq> None \<and>
                  last_autosave_dt st \<le> T"
    and le: "T \<le> now" and ok: "op_ok st (Stop now)"
  shows "\<not> running (stop st now) \<and>
         daily_seconds (daily_totals (stop st now)) d a
           = daily_seconds (daily_totals st) d a + pending st T d a
             + (if running st \<and> current_activity_id st = Some a
                then secs_on_date T now d else 0)"
proof (cases "running st")
  case False
  then show ?thesis
    by (simp add: stop_def idle_tick pending_idle save_previous_activity_if_running_def)
next
  case True
  then obtain aid where a: "current_activity_id st = Some aid"
    and t: "start_time st \<noteq> None" and lT: "last_autosave_dt st \<le> T"
    using inv by auto
  have l: "last_autosave_dt st \<le> now" using lT le by simp
  have day: "date_of now \<le> date_of (last_autosave_dt st) + 1"
    using ok True by simp
  note f = tick_fields [OF True a t, of now]
  have s: "stop st now = (finalize_current_session_row (do_autosave st now) now)
             \<lparr>running := False, start_time := None, start_timestamp := None\<rparr>"
    using f by (simp add: stop_def save_previous_activity_if_running_def)
  show ?thesis
    unfolding s
    using True a tick_credit [OF True a l day, of d a] secs_add [OF lT le, of d]
    by (simp add: finalize_fields pending_def)
qed

lemma conservation_step:
  assumes inv: "running st \<longrightarrow> current_activity_id st \<noteq> None \<and> start_time st \<noteq> None \<and>
                  last_autosave_dt st \<le> T"
    and le: "T \<le> op_time x" and ok: "op_ok st x" and s: "step st x = Some st'"
  shows "(running st' \<longrightarrow> current_activity_id st' \<noteq> None \<and> start_time st' \<noteq> None \<and>
            last_autosave_dt st' \<le> op_time x) \<and>
         daily_seconds (daily_totals st') d a + pending st' (op_time x) d a
           = daily_seconds (daily_totals st) d a + pending st T d a
             + (if running st \<and> current_activity_id st = Some a
                then secs_on_date T (op_time x) d else 0)"
proof (cases x)
  case (Start name now)
  show ?thesis
  proof (cases "running st")
    case True
    then have e: "st' = st" using s Start by (simp add: start_def)
    have lT: "last_autosave_dt st \<le> T" using inv True by simp
    show ?thesis
      unfolding e using inv True le Start secs_add [OF lT, of now d]
      by (simp add: pending_def)
  next
    case False
    then have "start_activity st name now = Some st'" using s Start by (simp add: start_def)
    then show ?thesis using conservation_start_activity [OF False, of name now st' d a T] Start
      by simp
  qed
next
  case (Switch selected custom now)
  then have idle: "\<not> running st" using ok by simp
  consider "st' = st" | name where "start_activity st name now = Some st'"
    using switch_activity_cases [of st selected custom now] s Switch by auto
  then show ?thesis
  proof cases
    case 1
    then show ?thesis using idle by (simp add: pending_idle)
  next
    case 2
    then show ?thesis using conservation_start_activity [OF idle 2, of d a T] Switch by simp
  qed
next
  case (Stop now)
  then have e: "st' = stop st now" using s by simp
  show ?thesis
    using conservation_stop [OF inv, of now d a] le ok Stop
    by (simp add: e pending_idle)
next
  case (Tick now)
  then have e: "st' = do_autosave st now" using s by simp
  show ?thesis
    using conservation_tick [OF inv, of now d a] le ok Tick
    by (simp add: e)
qed

lemma conservation_run:
  assumes "running st \<longrightarrow> current_activity_id st \<noteq> None \<and> start_time st \<noteq> None \<and>
             last_autosave_dt st \<le> T"
    and "admissible st T ops"
  shows "\<exists>st'. run st ops = Some st' \<and>
           daily_seconds (daily_totals st') d a + pending st' (last_time T ops) d a
             = daily_seconds (daily_totals st) d a + pending st T d a
               + running_secs st T ops d a"
  using assms
proof (induction ops arbitrary: st T)
  case Nil
  then show ?case by simp
next
  case (Cons x xs)
  obtain st1 where s: "step st x = Some st1" using step_total by blast
  have le: "T \<le> op_time x" and ok: "op_ok st x" and adm: "admissible st1 (op_time x) xs"
    using Cons.prems(2) s by simp_all
  note c = conservation_step [OF Cons.prems(1) le ok s, of d a]
  obtain st' where r: "run st1 xs = Some st'"
    and eq: "daily_seconds (daily_totals st') d a + pending st' (last_time (op_time x) xs) d a
             = daily_seconds (daily_totals st1) d a + pending st1 (op_time x) d a
               + running_secs st1 (op_time x) xs d a"
    using Cons.IH [of st1 "op_time x"] c adm by blast
  show ?case using r eq c by (simp add: s)
qed

text \<open>
  Claim C1, as the code has it. Start the tracker in its initial idle state and apply
  a finite sequence of operations whose clock readings do not decrease, in which a switch
  is made only while idle, every tick or stop made while running comes on the checkpoint's
  calendar day or the next one, and no tick made while running falls exactly on the
  midnight it crosses (\<open>admissible\<close>). Then no operation fails, and for every day \<open>d\<close> and
  activity \<open>a\<close>: the seconds stored in \<open>daily_totals\<close> for them, plus the time of the
  still-live session that is not credited yet (from the checkpoint to the last
  operation, as far as it falls on \<open>d\<close>), are the seconds stored at the beginning plus
  the wall-clock seconds of day \<open>d\<close> during which the tracker was running \<open>a\<close>.
\<close>

theorem conservation:
  assumes "admissible (initial_state acts sess dts t0) t0 ops"
  shows "\<exists>st'. run (initial_state acts sess dts t0) ops = Some st' \<and>
           daily_seconds (daily_totals st') d a + pending st' (last_time t0 ops) d a
             = daily_seconds dts d a + running_secs (initial_state acts sess dts t0) t0 ops d a"
proof -
  let ?s0 = "initial_state acts sess dts t0"
  have idle: "\<not> running ?s0" by (simp add: initial_state_def)
  have d: "daily_totals ?s0 = dts" by (simp add: initial_state_def)
  show ?thesis
    using conservation_run [of ?s0 t0 ops d a] assms idle
    by (simp add: pending_idle d)
qed

text \<open>An instance: Work is started at 23:58:00, ticks come at 00:02:00 and 00:03:00 of
  the next day, and the Start button is pressed at 00:03:30 while Work is running. Of the
  second day, 210 seconds were spent on Work: 180 are stored and 30 are pending.\<close>

theorem conservation_witness:
  "admissible (initial_state [] [] [] (mk_datetime 2024 1 1 9 0 0)) (mk_datetime 2024 1 1 9 0 0)
     [Start ''Work'' (mk_datetime 2024 1 1 23 58 0), Tick (mk_datetime 2024 1 2 0 2 0),
      Tick (mk_datetime 2024 1 2 0 3 0), Start ''Study'' (mk_datetime 2024 1 2 0 3 30)] \<and>
   running_secs (initial_state [] [] [] (mk_datetime 2024 1 1 9 0 0)) (mk_datetime 2024 1 1 9 0 0)
     [Start ''Work'' (mk_datetime 2024 1 1 23 58 0), Tick (mk_datetime 2024 1 2 0 2 0),
      Tick (mk_datetime 2024 1 2 0 3 0), Start ''Study'' (mk_datetime 2024 1 2 0 3 30)]
     (date_of (mk_datetime 2024 1 2 0 0 0)) 1 = 210 \<and>
   (\<exists>st'. run (initial_state [] [] [] (mk_datetime 2024 1 1 9 0 0))
            [Start ''Work'' (mk_datetime 2024 1 1 23 58 0), Tick (mk_datetime 2024 1 2 0 2 0),
             Tick (mk_datetime 2024 1 2 0 3 0), Start ''Study'' (mk_datetime 2024 1 2 0 3 30)]
          = Some st' \<and>
        daily_seconds (daily_totals st') (date_of (mk_datetime 2024 1 2 0 0 0)) 1
          + pending st' (mk_datetime 2024 1 2 0 3 30) (date_of (mk_datetime 2024 1 2 0 0 0)) 1
          = 210)"
proof -
  let ?s0 = "initial_state [] [] [] (mk_datetime 2024 1 1 9 0 0)"
  let ?ops = "[Start ''Work'' (mk_datetime 2024 1 1 23 58 0), Tick (mk_datetime 2024 1 2 0 2 0),
      Tick (mk_datetime 2024 1 2 0 3 0), Start ''Study'' (mk_datetime 2024 1 2 0 3 30)]"
  have adm: "admissible ?s0 (mk_datetime 2024 1 1 9 0 0) ?ops" by code_simp
  have rs: "running_secs ?s0 (mk_datetime 2024 1 1 9 0 0) ?ops
              (date_of (mk_datetime 2024 1 2 0 0 0)) 1 = 210" by code_simp
  have z: "daily_seconds [] (date_of (mk_datetime 2024 1 2 0 0 0)) 1 = 0"
    by (simp add: daily_seconds_def)
  show ?thesis
    using conservation [OF adm, of "date_of (mk_datetime 2024 1 2 0 0 0)" 1] adm rs
    by (simp add: z)
qed

text \<open>Counterexample to claim C1 as stated. After a start and one tick a minute later the tracker
  has run 60 seconds, but the daily totals hold 60 seconds and the live session row
  records 60 seconds as well: their sum is 120. After a start and a switch 30 seconds
  later the tracker has run 30 seconds and nothing is credited. After a start at
  23:58:00, a tick at midnight exactly and a stop at 00:01:00 the tracker has run 180
  seconds and 300 are credited. After a start at 2024-01-01 23:58:00 and a stop at
  2024-01-04 00:02:00 the tracker has run all 86400 seconds of 2024-01-02 and none is
  stored for that day.\<close>

theorem conservation_counterexample:
  "map_option (\<lambda>st. total_credited st + live_duration st)
     (run (initial_state [] [] [] (mk_datetime 2024 1 1 9 0 0))
        [Start ''Work'' (mk_datetime 2024 1 1 10 0 0), Tick (mk_datetime 2024 1 1 10 1 0)])
     = Some 120 \<and>
   running_total (initial_state [] [] [] (mk_datetime 2024 1 1 9 0 0)) (mk_datetime 2024 1 1 9 0 0)
        [Start ''Work'' (mk_datetime 2024 1 1 10 0 0), Tick (mk_datetime 2024 1 1 10 1 0)]
     = 60 \<and>
   map_option (\<lambda>st. total_credited st + live_duration st)
     (run (initial_state [] [] [] (mk_datetime 2024 1 1 9 0 0))
        [Start ''Work'' (mk_datetime 2024 1 1 10 0 0),
         Switch ''Study'' None (mk_datetime 2024 1 1 10 0 30)])
     = Some 0 \<and>
   running_total (initial_state [] [] [] (mk_datetime 2024 1 1 9 0 0)) (mk_datetime 2024 1 1 9 0 0)
        [Start ''Work'' (mk_datetime 2024 1 1 10 0 0),
         Switch ''Study'' None (mk_datetime 2024 1 1 10 0 30)]
     = 30 \<and>
   map_option (\<lambda>st. total_credited st + live_duration st)
     (run (initial_state [] [] [] (mk_datetime 2024 1 1 9 0 0))
        [Start ''Work'' (mk_datetime 2024 1 1 23 58 0), Tick (mk_datetime 2024 1 2 0 0 0),
         Stop (mk_datetime 2024 1 2 0 1 0)])
     = Some 300 \<and>
   running_total (initial_state [] [] [] (mk_datetime 2024 1 1 9 0 0)) (mk_datetime 2024 1 1 9 0 0)
        [Start ''Work'' (mk_datetime 2024 1 1 23 58 0), Tick (mk_datetime 2024 1 2 0 0 0),
         Stop (mk_datetime 2024 1 2 0 1 0)]
     = 180 \<and>
   map_option (\<lambda>st. daily_seconds (daily_totals st) (date_of (mk_datetime 2024 1 2 0 0 0)) 1)
     (run (initial_state [] [] [] (mk_datetime 2024 1 1 9 0 0))
        [Start ''Work'' (mk_datetime 2024 1 1 23 58 0), Stop (mk_datetime 2024 1 4 0 2 0)])
     = Some 0 \<and>
   running_secs (initial_state [] [] [] (mk_datetime 2024 1 1 9 0 0)) (mk_datetime 2024 1 1 9 0 0)
        [Start ''Work'' (mk_datetime 2024 1 1 23 58 0), Stop (mk_datetime 2024 1 4 0 2 0)]
        (date_of (mk_datetime 2024 1 2 0 0 0)) 1
     = 86400"
  by code_simp

end
